theory Spec2Isabelle
  imports Main
begin

section \<open>Python values\<close>

text \<open>
  A Python \<open>str\<close> is a sequence of Unicode code points. Isabelle's \<open>char\<close> has eight
  bits only, so a character is modelled by its code point and a string by the list of
  its code points; \<open>py\<close> turns an ASCII literal into such a string.
\<close>

type_synonym pychar = nat
type_synonym pystr = "pychar list"

definition py :: "string \<Rightarrow> pystr" where
  "py s = map of_char s"

text \<open>
  \<open>str.isspace\<close> on one character, which is also what \<open>\s\<close> means in a \<open>str\<close> pattern
  of the \<open>re\<close> module and what \<open>str.strip()\<close> removes: the ASCII controls 9..13 and
  28..31, the space, and the Unicode white space beyond ASCII.
\<close>

definition is_space :: "pychar \<Rightarrow> bool" where
  "is_space c \<longleftrightarrow>
     (9 \<le> c \<and> c \<le> 13) \<or> (28 \<le> c \<and> c \<le> 32) \<or> c = 133 \<or> c = 160 \<or> c = 5760 \<or>
     (8192 \<le> c \<and> c \<le> 8202) \<or> c = 8232 \<or> c = 8233 \<or> c = 8239 \<or> c = 8287 \<or> c = 12288"

text \<open>\<open>s.strip()\<close>: white space removed at both ends.\<close>

definition strip :: "pystr \<Rightarrow> pystr" where
  "strip s = rev (dropWhile is_space (rev (dropWhile is_space s)))"

text \<open>\<open>s.startswith(p)\<close>, \<open>s.endswith(p)\<close> and \<open>p in s\<close> on strings.\<close>

definition startswith :: "pystr \<Rightarrow> pystr \<Rightarrow> bool" where
  "startswith s p \<longleftrightarrow> take (length p) s = p"

definition endswith :: "pystr \<Rightarrow> pystr \<Rightarrow> bool" where
  "endswith s p \<longleftrightarrow> length p \<le> length s \<and> drop (length s - length p) s = p"

text \<open>\<open>s.endswith(t)\<close> for a tuple \<open>t\<close> of suffixes: one of them fits.\<close>

definition endswith_any :: "pystr \<Rightarrow> pystr list \<Rightarrow> bool" where
  "endswith_any s ps \<longleftrightarrow> list_ex (endswith s) ps"

fun contains :: "pystr \<Rightarrow> pystr \<Rightarrow> bool" where
  "contains p [] \<longleftrightarrow> p = []"
| "contains p (c # cs) \<longleftrightarrow> startswith (c # cs) p \<or> contains p cs"

text \<open>\<open>s.split("\n")\<close>: the pieces between line feeds; never the empty list.\<close>

fun split_lines :: "pystr \<Rightarrow> pystr list" where
  "split_lines [] = [[]]"
| "split_lines (c # cs) =
     (if c = 10 then [] # split_lines cs
      else (case split_lines cs of [] \<Rightarrow> [[c]] | l # ls \<Rightarrow> (c # l) # ls))"

text \<open>
  A value that ends up in a message's \<open>args\<close> tuple: a string, or one of the other
  objects a node attribute can hold (\<open>Obj\<close> stands for any object that is not a string,
  an integer, a Boolean or \<open>None\<close>, under an opaque tag: a bytes or float constant, a
  child node). Only a \<open>Str\<close> compares equal to a string.
\<close>

datatype pyobj = Str pystr | IntVal int | BoolVal bool | NoneVal | Obj nat

datatype error = AttributeError | IndexError

text \<open>\<open>xs[i]\<close> on a list: a negative index counts from the end.\<close>

definition getitem :: "'a list \<Rightarrow> int \<Rightarrow> error + 'a" where
  "getitem xs i =
     (if 0 \<le> i \<and> i < int (length xs) then Inr (xs ! nat i)
      else if i < 0 \<and> - int (length xs) \<le> i then Inr (xs ! nat (int (length xs) + i))
      else Inl IndexError)"

section \<open>Regular expressions\<close>

text \<open>
  The patterns of the checkers are concatenations of characters, character sets and
  starred sets. \<open>Never\<close>, \<open>Empty\<close> and \<open>Alt\<close> do not occur in them; the matcher needs
  them for the residual of a pattern after one character.
\<close>

datatype item = Lit pychar | Range pychar pychar | Whitespace

datatype regex =
    Never
  | Empty
  | In "item list"
  | Seq regex regex
  | Alt regex regex
  | Star regex

fun item_has :: "item \<Rightarrow> pychar \<Rightarrow> bool" where
  "item_has (Lit a) c \<longleftrightarrow> c = a"
| "item_has (Range a b) c \<longleftrightarrow> a \<le> c \<and> c \<le> b"
| "item_has Whitespace c \<longleftrightarrow> is_space c"

definition in_set :: "item list \<Rightarrow> pychar \<Rightarrow> bool" where
  "in_set its c \<longleftrightarrow> list_ex (\<lambda>i. item_has i c) its"

text \<open>A literal run of characters, such as \<open>\.\.\<close> or \<open>toggle\<close>.\<close>

fun literal :: "pystr \<Rightarrow> regex" where
  "literal [] = Empty"
| "literal (c # cs) = Seq (In [Lit c]) (literal cs)"

fun nullable :: "regex \<Rightarrow> bool" where
  "nullable Never \<longleftrightarrow> False"
| "nullable Empty \<longleftrightarrow> True"
| "nullable (In its) \<longleftrightarrow> False"
| "nullable (Seq r s) \<longleftrightarrow> nullable r \<and> nullable s"
| "nullable (Alt r s) \<longleftrightarrow> nullable r \<or> nullable s"
| "nullable (Star r) \<longleftrightarrow> True"

text \<open>\<open>after c r\<close> matches what \<open>r\<close> can still match once it has read \<open>c\<close>.\<close>

fun after :: "pychar \<Rightarrow> regex \<Rightarrow> regex" where
  "after c Never = Never"
| "after c Empty = Never"
| "after c (In its) = (if in_set its c then Empty else Never)"
| "after c (Seq r s) =
     (if nullable r then Alt (Seq (after c r) s) (after c s) else Seq (after c r) s)"
| "after c (Alt r s) = Alt (after c r) (after c s)"
| "after c (Star r) = Seq (after c r) (Star r)"

text \<open>
  \<open>bool(pattern.match(s))\<close>: \<open>match\<close> is anchored at the start of \<open>s\<close> and not at its
  end, so it succeeds when the pattern matches some prefix of \<open>s\<close>. These patterns have
  no back-references or look-around, for which the backtracking search of \<open>re\<close> finds
  a match exactly when one exists.
\<close>

fun re_match :: "regex \<Rightarrow> pystr \<Rightarrow> bool" where
  "re_match r [] \<longleftrightarrow> nullable r"
| "re_match r (c # cs) \<longleftrightarrow> nullable r \<or> re_match (after c r) cs"

section \<open>AnnotationLines\<close>

text \<open>
  The module node, as far as the checkers read it: the text of the module once
  \<open>module_node.stream().read()\<close> is decoded with the file's encoding (UTF-8 when the
  module declares none).
\<close>

record module_node =
  module_as_string :: pystr

record AnnotationLines =
  list_of_string_lines :: "pystr list"

text \<open>\<open>_ANNOTATION_REGEX = re.compile(r"[\s]*#[\s]*\.\.[\s]*(toggle)")\<close>; the group only
  captures.\<close>

definition ANNOTATION_REGEX :: regex where
  "ANNOTATION_REGEX =
     Seq (Star (In [Whitespace]))
       (Seq (In [Lit 35])
         (Seq (Star (In [Whitespace]))
           (Seq (literal (py ''..''))
             (Seq (Star (In [Whitespace])) (literal (py ''toggle''))))))"

definition AnnotationLines_init :: "module_node \<Rightarrow> AnnotationLines" where
  "AnnotationLines_init module_node =
     \<lparr>list_of_string_lines = split_lines (module_as_string module_node)\<rparr>"

definition line_count :: "AnnotationLines \<Rightarrow> int" where
  "line_count self = int (length (list_of_string_lines self))"

definition get_line_contents :: "AnnotationLines \<Rightarrow> int \<Rightarrow> error + pystr" where
  "get_line_contents self line_number = getitem (list_of_string_lines self) (line_number - 1)"

definition is_line_annotated :: "AnnotationLines \<Rightarrow> int \<Rightarrow> error + bool" where
  "is_line_annotated self line_number =
     (if line_number < 1 \<or> line_count self < line_number then Inr False
      else (case get_line_contents self line_number of
              Inl e \<Rightarrow> Inl e
            | Inr contents \<Rightarrow> Inr (re_match ANNOTATION_REGEX contents)))"

section \<open>Nodes of the parsed tree and messages\<close>

text \<open>
  An expression node, as far as the checkers read it: its \<open>lineno\<close>, the text that
  \<open>as_string()\<close> returns, and the attributes \<open>name\<close> and \<open>value\<close>. An attribute the
  node does not have is \<open>None\<close> here: \<open>hasattr\<close> is false for it and reading it raises
  \<open>AttributeError\<close>. A \<open>Name\<close> node has a \<open>name\<close> and no \<open>value\<close>; a \<open>Const\<close> node has
  a \<open>value\<close>, the constant, and no \<open>name\<close>.
\<close>

record expr_node =
  node_lineno :: int
  node_as_string :: pystr
  node_name :: "pystr option"
  node_value :: "pyobj option"

text \<open>A keyword argument \<open>arg=value\<close>; \<open>arg\<close> is \<open>None\<close> for \<open>**kwargs\<close>.\<close>

record keyword_node =
  keyword_arg :: "pystr option"
  keyword_value :: expr_node

record call_node =
  call_func :: expr_node
  call_args :: "expr_node list"
  call_keywords :: "keyword_node list option"
  call_lineno :: int

record classdef_node =
  classdef_name :: pystr
  classdef_basenames :: "pystr list"
  classdef_lineno :: int

text \<open>
  A dictionary literal. Of its parent the checker reads \<open>targets\<close> only: the target
  nodes when the parent is an assignment, \<open>None\<close> when the parent has no such
  attribute.
\<close>

record dict_node =
  dict_parent_targets :: "expr_node list option"
  dict_items :: "(expr_node \<times> expr_node) list"
  dict_lineno :: int

datatype node = Call call_node | ClassDef classdef_node | Dict dict_node | Module module_node

text \<open>
  What \<open>add_message(msg_id, args=..., node=...)\<close> hands to the linter. The linter keeps
  the messages in the order of the calls; a message without \<open>args\<close> has none.
\<close>

record message =
  msg_id :: pystr
  msg_args :: "pyobj list"
  msg_node :: node

definition add_message :: "message list \<Rightarrow> pystr \<Rightarrow> pyobj list \<Rightarrow> node \<Rightarrow> message list" where
  "add_message sink mid args n = sink @ [\<lparr>msg_id = mid, msg_args = args, msg_node = n\<rparr>]"

text \<open>The messages a call added to the linter, and those of them with a given id.\<close>

definition emitted :: "message list \<Rightarrow> message list \<Rightarrow> message list" where
  "emitted before after' = drop (length before) after'"

definition with_id :: "pystr \<Rightarrow> message list \<Rightarrow> message list" where
  "with_id mid ms = filter (\<lambda>m. msg_id m = mid) ms"

section \<open>FeatureToggleChecker\<close>

text \<open>
  The checker's state: \<open>self._lines\<close>, which is \<open>None\<close> until \<open>visit_module\<close> has run,
  and the messages it has given to the linter. A method returns the state it leaves
  and the exception it raised, if any.
\<close>

record FeatureToggleChecker =
  self_lines :: "AnnotationLines option"
  messages :: "message list"

type_synonym 's outcome = "error option \<times> 's"

definition TOGGLE_NOT_ANNOTATED_MESSAGE_ID :: pystr where
  "TOGGLE_NOT_ANNOTATED_MESSAGE_ID = py ''feature-toggle-needs-doc''"

definition ILLEGAL_WAFFLE_MESSAGE_ID :: pystr where
  "ILLEGAL_WAFFLE_MESSAGE_ID = py ''illegal-waffle-usage''"

definition CHECK_CAPITAL_REGEX :: regex where
  "CHECK_CAPITAL_REGEX = In [Range 65 90]"

definition WAFFLE_TOGGLE_CLASSES :: "pystr list" where
  "WAFFLE_TOGGLE_CLASSES = [py ''WaffleFlag'', py ''WaffleSwitch'', py ''CourseWaffleFlag'']"

definition ILLEGAL_WAFFLE_FUNCTIONS :: "pystr list" where
  "ILLEGAL_WAFFLE_FUNCTIONS = [py ''flag_is_active'', py ''switch_is_active'']"

definition FeatureToggleChecker_init :: "message list \<Rightarrow> FeatureToggleChecker" where
  "FeatureToggleChecker_init sink = \<lparr>self_lines = None, messages = sink\<rparr>"

definition visit_module :: "FeatureToggleChecker \<Rightarrow> module_node \<Rightarrow> FeatureToggleChecker outcome" where
  "visit_module self n = (None, self\<lparr>self_lines := Some (AnnotationLines_init n)\<rparr>)"

definition self_add_message ::
  "FeatureToggleChecker \<Rightarrow> pystr \<Rightarrow> pyobj list \<Rightarrow> node \<Rightarrow> FeatureToggleChecker" where
  "self_add_message self mid args n = self\<lparr>messages := add_message (messages self) mid args n\<rparr>"

text \<open>\<open>self._lines.is_line_annotated(line_number)\<close>.\<close>

definition lines_is_line_annotated :: "FeatureToggleChecker \<Rightarrow> int \<Rightarrow> error + bool" where
  "lines_is_line_annotated self line_number =
     (case self_lines self of
        None \<Rightarrow> Inl AttributeError
      | Some ls \<Rightarrow> is_line_annotated ls line_number)"

text \<open>
  The loop over \<open>node.keywords\<close>: every keyword named \<open>flag_name\<close> overwrites the
  name with \<open>node_key.value.value\<close>.
\<close>

fun flag_name_loop :: "keyword_node list \<Rightarrow> pyobj \<Rightarrow> error + pyobj" where
  "flag_name_loop [] feature_toggle_name = Inr feature_toggle_name"
| "flag_name_loop (node_key # rest) feature_toggle_name =
     (if keyword_arg node_key = Some (py ''flag_name'')
      then (case node_value (keyword_value node_key) of
              None \<Rightarrow> Inl AttributeError
            | Some v \<Rightarrow> flag_name_loop rest v)
      else flag_name_loop rest feature_toggle_name)"

definition check_waffle_class_annotated ::
  "FeatureToggleChecker \<Rightarrow> call_node \<Rightarrow> FeatureToggleChecker outcome" where
  "check_waffle_class_annotated self n =
     (case node_name (call_func n) of
        None \<Rightarrow> (None, self)
      | Some func_name \<Rightarrow>
          if \<not> re_match CHECK_CAPITAL_REGEX func_name then (None, self)
          else if \<not> endswith_any func_name WAFFLE_TOGGLE_CLASSES then (None, self)
          else
            (case lines_is_line_annotated self (call_lineno n - 1) of
               Inl e \<Rightarrow> (Some e, self)
             | Inr True \<Rightarrow> (None, self)
             | Inr False \<Rightarrow>
                 (case (case call_keywords n of
                          None \<Rightarrow> Inr (Str (py ''UNKNOWN''))
                        | Some keywords \<Rightarrow> flag_name_loop keywords (Str (py ''UNKNOWN''))) of
                    Inl e \<Rightarrow> (Some e, self)
                  | Inr name1 \<Rightarrow>
                      (let feature_toggle_name =
                         (if name1 = Str (py ''UNKNOWN'') \<and> length (call_args n) \<ge> 2
                          then Str (node_as_string (call_args n ! 1))
                          else name1)
                       in (None, self_add_message self TOGGLE_NOT_ANNOTATED_MESSAGE_ID
                                   [feature_toggle_name] (Call n))))))"

definition check_configuration_model_annotated ::
  "FeatureToggleChecker \<Rightarrow> classdef_node \<Rightarrow> FeatureToggleChecker outcome" where
  "check_configuration_model_annotated self n =
     (if py ''ConfigurationModel'' \<notin> set (classdef_basenames n) then (None, self)
      else
        (case lines_is_line_annotated self (classdef_lineno n - 1) of
           Inl e \<Rightarrow> (Some e, self)
         | Inr True \<Rightarrow> (None, self)
         | Inr False \<Rightarrow>
             (None, self_add_message self TOGGLE_NOT_ANNOTATED_MESSAGE_ID
                      [Str (classdef_name n)] (ClassDef n))))"

text \<open>\<open>node.parent.targets[0].name\<close>, or the exception that reading it raises.\<close>

definition parent_target_name :: "dict_node \<Rightarrow> error + pystr" where
  "parent_target_name n =
     (case dict_parent_targets n of
        None \<Rightarrow> Inl AttributeError
      | Some targets \<Rightarrow>
          (case getitem targets 0 of
             Inl e \<Rightarrow> Inl e
           | Inr target \<Rightarrow>
               (case node_name target of None \<Rightarrow> Inl AttributeError | Some nm \<Rightarrow> Inr nm)))"

text \<open>The loop over \<open>node.items\<close>; \<open>n\<close> is the dictionary node, which every message names.\<close>

fun features_loop ::
  "dict_node \<Rightarrow> (expr_node \<times> expr_node) list \<Rightarrow> FeatureToggleChecker \<Rightarrow> FeatureToggleChecker outcome" where
  "features_loop n [] self = (None, self)"
| "features_loop n ((key, uu) # rest) self =
     (case lines_is_line_annotated self (node_lineno key - 1) of
        Inl e \<Rightarrow> (Some e, self)
      | Inr True \<Rightarrow> features_loop n rest self
      | Inr False \<Rightarrow>
          (case node_value key of
             None \<Rightarrow> (Some AttributeError, self)
           | Some django_feature_toggle_name \<Rightarrow>
               features_loop n rest
                 (self_add_message self TOGGLE_NOT_ANNOTATED_MESSAGE_ID
                    [django_feature_toggle_name] (Dict n))))"

definition check_django_feature_flag_annotated ::
  "FeatureToggleChecker \<Rightarrow> dict_node \<Rightarrow> FeatureToggleChecker outcome" where
  "check_django_feature_flag_annotated self n =
     (case parent_target_name n of
        Inl AttributeError \<Rightarrow> (None, self)
      | Inl e \<Rightarrow> (Some e, self)
      | Inr nm \<Rightarrow>
          if nm = py ''FEATURES'' then features_loop n (dict_items n) self else (None, self))"

definition check_illegal_waffle_usage ::
  "FeatureToggleChecker \<Rightarrow> call_node \<Rightarrow> FeatureToggleChecker outcome" where
  "check_illegal_waffle_usage self n =
     (case node_name (call_func n) of
        None \<Rightarrow> (None, self)
      | Some func_name \<Rightarrow>
          if func_name \<in> set ILLEGAL_WAFFLE_FUNCTIONS
          then (let feature_toggle_name =
                  (if length (call_args n) \<ge> 1 then node_as_string (call_args n ! 0)
                   else py ''UNKNOWN'')
                in (None, self_add_message self ILLEGAL_WAFFLE_MESSAGE_ID
                            [Str feature_toggle_name] (Call n)))
          else (None, self))"

definition visit_call :: "FeatureToggleChecker \<Rightarrow> call_node \<Rightarrow> FeatureToggleChecker outcome" where
  "visit_call self n =
     (case check_waffle_class_annotated self n of
        (Some e, self') \<Rightarrow> (Some e, self')
      | (None, self') \<Rightarrow> check_illegal_waffle_usage self' n)"

definition visit_classdef :: "FeatureToggleChecker \<Rightarrow> classdef_node \<Rightarrow> FeatureToggleChecker outcome" where
  "visit_classdef self n = check_configuration_model_annotated self n"

definition visit_dict :: "FeatureToggleChecker \<Rightarrow> dict_node \<Rightarrow> FeatureToggleChecker outcome" where
  "visit_dict self n = check_django_feature_flag_annotated self n"

section \<open>FeatureToggleAnnotationChecker\<close>

text \<open>
  One annotation of a group, as the checker receives it: a dictionary of which it reads
  the keys \<open>annotation_token\<close> and \<open>annotation_data\<close>. The groups come from the search of
  the library \<open>code_annotations\<close>, which is not part of this repository. For most tokens
  the data is a string, the text after the token. For a token that the annotation
  configuration declares with choices, the search has replaced that text by the list
  of the tags in it. With the configuration that the checker loads,
  \<open>feature_toggle_annotations.yaml\<close>, \<open>.. toggle_use_cases:\<close> is such a token, and none of
  the other four tokens that the checker reads is. So an annotation is either a token
  with a string, or \<open>.. toggle_use_cases:\<close> with the list of its tags. An annotation of
  another token with choices can be given with any string: the checker does not read
  its data.
\<close>

datatype annotation =
    Annotation pystr pystr
  | Use_cases "pystr list"

fun annotation_token :: "annotation \<Rightarrow> pystr" where
  "annotation_token (Annotation tok d) = tok"
| "annotation_token (Use_cases tags) = py ''.. toggle_use_cases:''"

text \<open>
  \<open>x in annotation["annotation_data"]\<close>: \<open>x\<close> is a substring of the data when the data
  is a string, and one of its elements when it is a list.
\<close>

fun in_data :: "pystr \<Rightarrow> annotation \<Rightarrow> bool" where
  "in_data x (Annotation tok d) \<longleftrightarrow> contains x d"
| "in_data x (Use_cases tags) \<longleftrightarrow> x \<in> set tags"

definition INCORRECT_NAME_MESSAGE_ID :: pystr where
  "INCORRECT_NAME_MESSAGE_ID = py ''toggle-incorrect-name''"

definition EMPTY_DESCRIPTION_MESSAGE_ID :: pystr where
  "EMPTY_DESCRIPTION_MESSAGE_ID = py ''toggle-empty-description''"

definition MISSING_TARGET_REMOVAL_DATE_MESSAGE_ID :: pystr where
  "MISSING_TARGET_REMOVAL_DATE_MESSAGE_ID = py ''toggle-missing-target-removal-date''"

definition NON_BOOLEAN_DEFAULT_VALUE :: pystr where
  "NON_BOOLEAN_DEFAULT_VALUE = py ''toggle-non-boolean-default-value''"

text \<open>The local variables of \<open>check_feature_toggles_annotation_group\<close>.\<close>

record group_vars =
  target_removal_date :: "pystr option"
  temporary_use_case :: bool
  toggle_name :: pystr
  toggle_description :: pystr
  toggle_default :: "pystr option"

definition initial_vars :: group_vars where
  "initial_vars =
     \<lparr>target_removal_date = None, temporary_use_case = False, toggle_name = [],
      toggle_description = [], toggle_default = None\<rparr>"

text \<open>
  The body of the loop over the annotations of the group. The token of a \<open>Use_cases\<close>
  annotation is \<open>.. toggle_use_cases:\<close>, so the third branch is the one taken, with
  \<open>in\<close> on the list of tags.
\<close>

fun group_step :: "group_vars \<Rightarrow> annotation \<Rightarrow> group_vars" where
  "group_step v (Annotation tok d) =
     (if tok = py ''.. toggle_name:''
      then v\<lparr>toggle_name := d\<rparr>
      else if tok = py ''.. toggle_description:''
      then v\<lparr>toggle_description := strip d\<rparr>
      else if tok = py ''.. toggle_use_cases:''
      then (if contains (py ''temporary'') d
            then v\<lparr>temporary_use_case := True\<rparr> else v)
      else if tok = py ''.. toggle_target_removal_date:''
      then v\<lparr>target_removal_date := Some d\<rparr>
      else if tok = py ''.. toggle_default:''
      then v\<lparr>toggle_default := Some d\<rparr>
      else v)"
| "group_step v (Use_cases tags) =
     (if py ''temporary'' \<in> set tags
      then v\<lparr>temporary_use_case := True\<rparr> else v)"

definition group_loop :: "annotation list \<Rightarrow> group_vars" where
  "group_loop annotations = foldl group_step initial_vars annotations"

text \<open>The four tests after the loop, each adding its message to the linter's.\<close>

definition group_messages :: "group_vars \<Rightarrow> node \<Rightarrow> message list \<Rightarrow> message list" where
  "group_messages v n sink =
     (let s1 = (if toggle_name v = [] then add_message sink INCORRECT_NAME_MESSAGE_ID [] n
                else sink);
          s2 = (if toggle_description v = []
                then add_message s1 EMPTY_DESCRIPTION_MESSAGE_ID [Str (toggle_name v)] n
                else s1);
          s3 = (if temporary_use_case v \<and>
                   (target_removal_date v = None \<or> target_removal_date v = Some [])
                then add_message s2 MISSING_TARGET_REMOVAL_DATE_MESSAGE_ID [Str (toggle_name v)] n
                else s2);
          s4 = (if toggle_default v \<noteq> Some (py ''True'') \<and> toggle_default v \<noteq> Some (py ''False'')
                then add_message s3 NON_BOOLEAN_DEFAULT_VALUE [Str (toggle_name v)] n
                else s3)
      in s4)"

definition check_feature_toggles_annotation_group ::
  "annotation list \<Rightarrow> node \<Rightarrow> message list \<Rightarrow> message list" where
  "check_feature_toggles_annotation_group annotations n sink =
     (if annotations = [] then sink else group_messages (group_loop annotations) n sink)"

text \<open>
  \<open>visit_module\<close> of the annotation checker, given the groups that
  \<open>self.search.iter_groups\<close> yields for the module, in their order.
\<close>

definition annotation_visit_module ::
  "annotation list list \<Rightarrow> node \<Rightarrow> message list \<Rightarrow> message list" where
  "annotation_visit_module groups n sink =
     foldl (\<lambda>s g. check_feature_toggles_annotation_group g n s) sink groups"

section \<open>The specification's notions\<close>

text \<open>
  The words matched by a pattern, for stating what \<open>re_match\<close> decides.
\<close>

inductive_set star :: "pystr set \<Rightarrow> pystr set" for A :: "pystr set" where
  star_nil: "[] \<in> star A"
| star_step: "u \<in> A \<Longrightarrow> v \<in> star A \<Longrightarrow> u @ v \<in> star A"

fun lang :: "regex \<Rightarrow> pystr set" where
  "lang Never = {}"
| "lang Empty = {[]}"
| "lang (In its) = {[c] | c. in_set its c}"
| "lang (Seq r s) = {u @ v | u v. u \<in> lang r \<and> v \<in> lang s}"
| "lang (Alt r s) = lang r \<union> lang s"
| "lang (Star r) = star (lang r)"

text \<open>
  The specification's match rule for an annotated line, in its words: optional white
  space, \<open>#\<close>, optional white space, \<open>..\<close>, optional white space, the token \<open>toggle\<close>,
  all of it at the start of the line; what follows the token is free.
\<close>

definition starts_with_toggle_marker :: "pystr \<Rightarrow> bool" where
  "starts_with_toggle_marker line \<longleftrightarrow>
     (\<exists>w1 w2 w3 rest.
        list_all is_space w1 \<and> list_all is_space w2 \<and> list_all is_space w3 \<and>
        line = w1 @ py ''#'' @ w2 @ py ''..'' @ w3 @ py ''toggle'' @ rest)"

text \<open>
  The value of a token with string data in a group when the last write wins: the data
  of the last annotation with that token and a string, \<open>None\<close> when the group has none.
\<close>

fun last_occurrence :: "pystr \<Rightarrow> annotation list \<Rightarrow> pystr option" where
  "last_occurrence tok [] = None"
| "last_occurrence tok (a # rest) =
     (case last_occurrence tok rest of
        Some v \<Rightarrow> Some v
      | None \<Rightarrow>
          (case a of
             Annotation t d \<Rightarrow> if t = tok then Some d else None
           | Use_cases tags \<Rightarrow> None))"

text \<open>The last \<open>toggle_use_cases\<close> annotation of a group, with a string or with tags.\<close>

fun last_use_cases :: "annotation list \<Rightarrow> annotation option" where
  "last_use_cases [] = None"
| "last_use_cases (a # rest) =
     (case last_use_cases rest of
        Some u \<Rightarrow> Some u
      | None \<Rightarrow> if annotation_token a = py ''.. toggle_use_cases:'' then Some a else None)"

text \<open>The name of the group's toggle: its \<open>toggle_name\<close>, the empty string without one.\<close>

definition group_toggle_name :: "annotation list \<Rightarrow> pystr" where
  "group_toggle_name annotations =
     (case last_occurrence (py ''.. toggle_name:'') annotations of None \<Rightarrow> [] | Some v \<Rightarrow> v)"

text \<open>
  For some \<open>toggle_use_cases\<close> annotation of the group, \<open>temporary\<close> is \<open>in\<close> the data: one
  of the tags, or a substring of the string.
\<close>

definition some_use_case_temporary :: "annotation list \<Rightarrow> bool" where
  "some_use_case_temporary annotations \<longleftrightarrow>
     list_ex (\<lambda>a. annotation_token a = py ''.. toggle_use_cases:'' \<and>
                  in_data (py ''temporary'') a) annotations"

text \<open>
  The specification's reading of a \<open>toggle_use_cases\<close> value that contains \<open>temporary\<close>,
  as a substring and not as an exact match: a substring of the string, or of one of
  the tags.
\<close>

fun use_cases_contains :: "pystr \<Rightarrow> annotation \<Rightarrow> bool" where
  "use_cases_contains x (Annotation tok d) \<longleftrightarrow> tok = py ''.. toggle_use_cases:'' \<and> contains x d"
| "use_cases_contains x (Use_cases tags) \<longleftrightarrow> list_ex (contains x) tags"

text \<open>
  The fields the content rules would read if, for each of the five recognised tokens,
  the value were the one of the token's last occurrence.
\<close>

definition last_write_wins :: "annotation list \<Rightarrow> group_vars" where
  "last_write_wins annotations =
     \<lparr>target_removal_date = last_occurrence (py ''.. toggle_target_removal_date:'') annotations,
      temporary_use_case =
        (case last_use_cases annotations of
           None \<Rightarrow> False
         | Some u \<Rightarrow> in_data (py ''temporary'') u),
      toggle_name = group_toggle_name annotations,
      toggle_description =
        (case last_occurrence (py ''.. toggle_description:'') annotations of
           None \<Rightarrow> []
         | Some v \<Rightarrow> strip v),
      toggle_default = last_occurrence (py ''.. toggle_default:'') annotations\<rparr>"

section \<open>The string operations\<close>

text \<open>The operations on strings are the ones of Python: a prefix, a suffix, a substring.\<close>

lemma startswith_iff: "startswith s p \<longleftrightarrow> (\<exists>v. s = p @ v)"
proof
  assume "startswith s p"
  then have "s = p @ drop (length p) s"
    by (metis append_take_drop_id startswith_def)
  then show "\<exists>v. s = p @ v" ..
next
  assume "\<exists>v. s = p @ v"
  then show "startswith s p" by (auto simp: startswith_def)
qed

lemma endswith_iff: "endswith s p \<longleftrightarrow> (\<exists>u. s = u @ p)"
proof
  assume "endswith s p"
  then have "s = take (length s - length p) s @ p"
    by (metis append_take_drop_id endswith_def)
  then show "\<exists>u. s = u @ p" ..
next
  assume "\<exists>u. s = u @ p"
  then show "endswith s p" by (auto simp: endswith_def)
qed

lemma contains_iff: "contains p s \<longleftrightarrow> (\<exists>u v. s = u @ p @ v)"
proof (induction s)
  case Nil
  show ?case by auto
next
  case (Cons c cs)
  note IH = Cons.IH
  show ?case
  proof
    assume "contains p (c # cs)"
    then consider "startswith (c # cs) p" | "contains p cs" by auto
    then show "\<exists>u v. c # cs = u @ p @ v"
    proof cases
      case 1
      then obtain v where "c # cs = p @ v" unfolding startswith_iff ..
      then have "c # cs = [] @ p @ v" by simp
      then show ?thesis by blast
    next
      case 2
      with IH obtain u v where "cs = u @ p @ v" by blast
      then have "c # cs = (c # u) @ p @ v" by simp
      then show ?thesis by blast
    qed
  next
    assume "\<exists>u v. c # cs = u @ p @ v"
    then obtain u v where uv: "c # cs = u @ p @ v" by blast
    show "contains p (c # cs)"
    proof (cases u)
      case Nil
      with uv have "startswith (c # cs) p" unfolding startswith_iff by auto
      then show ?thesis by simp
    next
      case (Cons a u')
      with uv have "cs = u' @ p @ v" by simp
      with IH have "contains p cs" by blast
      then show ?thesis by simp
    qed
  qed
qed

lemma split_lines_nonempty: "split_lines s \<noteq> []"
  by (induction s) (auto split: list.splits)

section \<open>What the matcher decides\<close>

text \<open>
  \<open>re_match\<close> succeeds exactly when some prefix of the string is a word of the pattern.
\<close>

lemma nullable_lang: "nullable r \<longleftrightarrow> [] \<in> lang r"
  by (induction r) (auto intro: star.intros)

lemma star_cons_split:
  assumes "x \<in> star A" "x = c # w"
  shows "\<exists>u v. w = u @ v \<and> c # u \<in> A \<and> v \<in> star A"
  using assms
proof (induction arbitrary: w rule: star.induct)
  case star_nil
  then show ?case by simp
next
  case (star_step u v)
  show ?case
  proof (cases u)
    case Nil
    with star_step show ?thesis by simp
  next
    case (Cons a u')
    with star_step.prems have "a = c" "w = u' @ v" by simp_all
    with Cons star_step.hyps show ?thesis by blast
  qed
qed

lemma star_cons_iff:
  "c # w \<in> star A \<longleftrightarrow> (\<exists>u v. w = u @ v \<and> c # u \<in> A \<and> v \<in> star A)"
proof
  assume "c # w \<in> star A"
  then show "\<exists>u v. w = u @ v \<and> c # u \<in> A \<and> v \<in> star A"
    by (rule star_cons_split) simp
next
  assume "\<exists>u v. w = u @ v \<and> c # u \<in> A \<and> v \<in> star A"
  then obtain u v where "w = u @ v" "c # u \<in> A" "v \<in> star A" by blast
  then show "c # w \<in> star A"
    using star_step [of "c # u" A v] by simp
qed

lemma after_lang: "w \<in> lang (after c r) \<longleftrightarrow> c # w \<in> lang r"
proof (induction r arbitrary: w)
  case (Seq r s)
  show ?case
    by (auto simp: Seq nullable_lang Cons_eq_append_conv) 
next
  case (Star r)
  show ?case
    by (simp add: star_cons_iff Star)
qed auto

lemma re_match_lang: "re_match r s \<longleftrightarrow> (\<exists>p q. s = p @ q \<and> p \<in> lang r)"
proof (induction s arbitrary: r)
  case Nil
  then show ?case by (simp add: nullable_lang)
next
  case (Cons c cs)
  show ?case
    by (auto simp: Cons nullable_lang after_lang Cons_eq_append_conv)
qed

lemma lang_literal: "lang (literal s) = {s}"
  by (induction s) (auto simp: in_set_def)

lemma star_of_set: "star {[c] | c. P c} = {w. list_all P w}"
proof (rule set_eqI)
  fix w
  show "w \<in> star {[c] | c. P c} \<longleftrightarrow> w \<in> {w. list_all P w}"
  proof
    assume "w \<in> star {[c] | c. P c}"
    then show "w \<in> {w. list_all P w}"
      by (induction rule: star.induct) auto
  next
    assume "w \<in> {w. list_all P w}"
    then have "list_all P w" by simp
    then show "w \<in> star {[c] | c. P c}"
    proof (induction w)
      case Nil
      show ?case by (rule star_nil)
    next
      case (Cons c w)
      then have "[c] \<in> {[c] | c. P c}" "w \<in> star {[c] | c. P c}" by simp_all
      then have "[c] @ w \<in> star {[c] | c. P c}" by (rule star_step)
      then show ?case by simp
    qed
  qed
qed

lemma lang_spaces: "lang (Star (In [Whitespace])) = {w. list_all is_space w}"
  using star_of_set [of is_space] by (simp add: in_set_def)

lemma lang_hash: "lang (In [Lit 35]) = {py ''#''}"
  by (auto simp: in_set_def py_def)

lemma in_lang_Seq: "x \<in> lang (Seq r s) \<longleftrightarrow> (\<exists>u v. x = u @ v \<and> u \<in> lang r \<and> v \<in> lang s)"
  by auto

lemma in_lang_ANNOTATION_REGEX:
  "p \<in> lang ANNOTATION_REGEX \<longleftrightarrow>
     (\<exists>w1 w2 w3. list_all is_space w1 \<and> list_all is_space w2 \<and> list_all is_space w3 \<and>
        p = w1 @ py ''#'' @ w2 @ py ''..'' @ w3 @ py ''toggle'')"
proof -
  have tail3: "\<And>x. x \<in> lang (Seq (Star (In [Whitespace])) (literal (py ''toggle''))) \<longleftrightarrow>
      (\<exists>w3. list_all is_space w3 \<and> x = w3 @ py ''toggle'')"
    unfolding in_lang_Seq lang_spaces lang_literal by blast
  have tail2: "\<And>x. x \<in> lang (Seq (literal (py ''..''))
        (Seq (Star (In [Whitespace])) (literal (py ''toggle'')))) \<longleftrightarrow>
      (\<exists>w3. list_all is_space w3 \<and> x = py ''..'' @ w3 @ py ''toggle'')"
    unfolding in_lang_Seq [of _ "literal (py ''..'')"] tail3 lang_literal by blast
  have tail1: "\<And>x. x \<in> lang (Seq (Star (In [Whitespace])) (Seq (literal (py ''..''))
        (Seq (Star (In [Whitespace])) (literal (py ''toggle''))))) \<longleftrightarrow>
      (\<exists>w2 w3. list_all is_space w2 \<and> list_all is_space w3 \<and>
         x = w2 @ py ''..'' @ w3 @ py ''toggle'')"
    unfolding in_lang_Seq [of _ "Star (In [Whitespace])" "Seq (literal (py ''..'')) _"]
      tail2 lang_spaces by blast
  have tail0: "\<And>x. x \<in> lang (Seq (In [Lit 35]) (Seq (Star (In [Whitespace]))
        (Seq (literal (py ''..'')) (Seq (Star (In [Whitespace])) (literal (py ''toggle'')))))) \<longleftrightarrow>
      (\<exists>w2 w3. list_all is_space w2 \<and> list_all is_space w3 \<and>
         x = py ''#'' @ w2 @ py ''..'' @ w3 @ py ''toggle'')"
    unfolding in_lang_Seq [of _ "In [Lit 35]"] tail1 lang_hash by blast
  show ?thesis
    unfolding ANNOTATION_REGEX_def in_lang_Seq [of _ "Star (In [Whitespace])" "Seq (In [Lit 35]) _"]
      tail0 lang_spaces by blast
qed

lemma re_match_ANNOTATION_REGEX:
  "re_match ANNOTATION_REGEX line \<longleftrightarrow> starts_with_toggle_marker line"
proof
  assume "re_match ANNOTATION_REGEX line"
  then obtain p q where line: "line = p @ q" and p: "p \<in> lang ANNOTATION_REGEX"
    unfolding re_match_lang by blast
  from p obtain w1 w2 w3 where
    "p = w1 @ py ''#'' @ w2 @ py ''..'' @ w3 @ py ''toggle''"
    "list_all is_space w1" "list_all is_space w2" "list_all is_space w3"
    unfolding in_lang_ANNOTATION_REGEX by blast
  with line have
    "list_all is_space w1 \<and> list_all is_space w2 \<and> list_all is_space w3 \<and>
     line = w1 @ py ''#'' @ w2 @ py ''..'' @ w3 @ py ''toggle'' @ q"
    by simp
  then show "starts_with_toggle_marker line"
    unfolding starts_with_toggle_marker_def by blast
next
  assume "starts_with_toggle_marker line"
  then obtain w1 w2 w3 rest where
    sp: "list_all is_space w1" "list_all is_space w2" "list_all is_space w3" and
    line: "line = w1 @ py ''#'' @ w2 @ py ''..'' @ w3 @ py ''toggle'' @ rest"
    unfolding starts_with_toggle_marker_def by blast
  from sp have "w1 @ py ''#'' @ w2 @ py ''..'' @ w3 @ py ''toggle'' \<in> lang ANNOTATION_REGEX"
    unfolding in_lang_ANNOTATION_REGEX by blast
  moreover from line have
    "line = (w1 @ py ''#'' @ w2 @ py ''..'' @ w3 @ py ''toggle'') @ rest"
    by simp
  ultimately show "re_match ANNOTATION_REGEX line"
    unfolding re_match_lang by blast
qed

section \<open>AnnotationLines: the annotated lines\<close>

text \<open>\<open>is_line_annotated\<close> never raises: the test on the line number keeps the index in range.\<close>

lemma is_line_annotated_total:
  "is_line_annotated self n = Inr (is_line_annotated self n = Inr True)"
  by (auto simp: is_line_annotated_def get_line_contents_def getitem_def line_count_def Let_def)

text \<open>
  C3. A line of the module is classified as annotated if and only if it starts with
  optional white space, \<open>#\<close>, optional white space, \<open>..\<close>, optional white space and the
  token \<open>toggle\<close>. In particular \<open># .. toggle_name: FOO\<close>, \<open>#..toggle\<close> and
  \<open>   # .. toggle\<close> are annotated, and \<open>x = 1  # .. toggle\<close>, where the marker is not
  at the start of the line, is not.
\<close>

theorem is_line_annotated_matches_marker:
  "(1 \<le> n \<and> n \<le> line_count self \<longrightarrow>
      is_line_annotated self n =
        Inr (starts_with_toggle_marker (list_of_string_lines self ! nat (n - 1)))) \<and>
   is_line_annotated
     \<lparr>list_of_string_lines =
        [py ''# .. toggle_name: FOO'', py ''#..toggle'', py ''   # .. toggle'',
         py ''x = 1  # .. toggle'']\<rparr> 1 = Inr True \<and>
   is_line_annotated
     \<lparr>list_of_string_lines =
        [py ''# .. toggle_name: FOO'', py ''#..toggle'', py ''   # .. toggle'',
         py ''x = 1  # .. toggle'']\<rparr> 2 = Inr True \<and>
   is_line_annotated
     \<lparr>list_of_string_lines =
        [py ''# .. toggle_name: FOO'', py ''#..toggle'', py ''   # .. toggle'',
         py ''x = 1  # .. toggle'']\<rparr> 3 = Inr True \<and>
   is_line_annotated
     \<lparr>list_of_string_lines =
        [py ''# .. toggle_name: FOO'', py ''#..toggle'', py ''   # .. toggle'',
         py ''x = 1  # .. toggle'']\<rparr> 4 = Inr False"
proof (intro conjI impI)
  assume "1 \<le> n \<and> n \<le> line_count self"
  then show "is_line_annotated self n =
      Inr (starts_with_toggle_marker (list_of_string_lines self ! nat (n - 1)))"
    by (simp add: is_line_annotated_def get_line_contents_def getitem_def line_count_def
        re_match_ANNOTATION_REGEX)
qed (simp_all add: is_line_annotated_def get_line_contents_def getitem_def line_count_def
      ANNOTATION_REGEX_def py_def in_set_def is_space_def)

theorem is_line_annotated_matches_marker_witness:
  "is_line_annotated \<lparr>list_of_string_lines = [py ''x = 1  # .. toggle'', py ''#..toggle'']\<rparr> 2 = Inr True \<and>
   starts_with_toggle_marker (py ''#..toggle'') \<and>
   \<not> starts_with_toggle_marker (py ''x = 1  # .. toggle'')"
proof -
  let ?self = "\<lparr>list_of_string_lines = [py ''x = 1  # .. toggle'', py ''#..toggle'']\<rparr>"
  have r1: "1 \<le> (1::int) \<and> 1 \<le> line_count ?self" by (simp add: line_count_def)
  have r2: "1 \<le> (2::int) \<and> 2 \<le> line_count ?self" by (simp add: line_count_def)
  have e1: "is_line_annotated ?self 1 = Inr False"
    by (simp add: is_line_annotated_def get_line_contents_def getitem_def line_count_def
        ANNOTATION_REGEX_def py_def in_set_def is_space_def)
  have e2: "is_line_annotated ?self 2 = Inr True"
    by (simp add: is_line_annotated_def get_line_contents_def getitem_def line_count_def
        ANNOTATION_REGEX_def py_def in_set_def is_space_def)
  from is_line_annotated_matches_marker [of 1 ?self] r1 e1
  have "\<not> starts_with_toggle_marker (py ''x = 1  # .. toggle'')" by simp
  moreover from is_line_annotated_matches_marker [of 2 ?self] r2 e2
  have "starts_with_toggle_marker (py ''#..toggle'')" by simp
  ultimately show ?thesis using e2 by simp
qed

text \<open>
  C4. For a line number below 1 or beyond the number of lines of the module,
  \<open>is_line_annotated\<close> returns \<open>False\<close> and raises nothing.
\<close>

theorem is_line_annotated_out_of_range:
  "n < 1 \<or> line_count self < n \<Longrightarrow> is_line_annotated self n = Inr False"
  by (simp add: is_line_annotated_def)

theorem is_line_annotated_out_of_range_witness:
  "is_line_annotated (AnnotationLines_init \<lparr>module_as_string = py ''x = 1''\<rparr>) 0 = Inr False \<and>
   is_line_annotated (AnnotationLines_init \<lparr>module_as_string = py ''x = 1''\<rparr>) 2 = Inr False \<and>
   line_count (AnnotationLines_init \<lparr>module_as_string = py ''x = 1''\<rparr>) = 1"
proof -
  let ?self = "AnnotationLines_init \<lparr>module_as_string = py ''x = 1''\<rparr>"
  have c: "line_count ?self = 1"
    by (simp add: line_count_def AnnotationLines_init_def py_def)
  from c have "(0::int) < 1 \<or> line_count ?self < 0" "(2::int) < 1 \<or> line_count ?self < 2"
    by simp_all
  then show ?thesis
    using is_line_annotated_out_of_range [of 0 ?self]
      is_line_annotated_out_of_range [of 2 ?self] c by simp
qed

section \<open>FeatureToggleChecker: the detectors\<close>

lemmas eval_annotated =
  is_line_annotated_def get_line_contents_def getitem_def line_count_def
  ANNOTATION_REGEX_def py_def in_set_def is_space_def

lemma lowercase_not_capital:
  "\<not> re_match CHECK_CAPITAL_REGEX (py ''flag_is_active'')"
  "\<not> re_match CHECK_CAPITAL_REGEX (py ''switch_is_active'')"
  by (simp_all add: CHECK_CAPITAL_REGEX_def py_def in_set_def)

lemma waffle_class_annotated_no_message:
  assumes "lines_is_line_annotated self (call_lineno n - 1) = Inr True"
  shows "check_waffle_class_annotated self n = (None, self)"
  using assms by (simp add: check_waffle_class_annotated_def split: option.splits)

lemma flag_name_loop_absent:
  "\<forall>k \<in> set ks. keyword_arg k \<noteq> Some (py ''flag_name'') \<Longrightarrow> flag_name_loop ks v = Inr v"
  by (induction ks arbitrary: v) auto

lemma waffle_class_unannotated_positional:
  assumes "node_name (call_func n) = Some f"
      and "re_match CHECK_CAPITAL_REGEX f" and "endswith_any f WAFFLE_TOGGLE_CLASSES"
      and "lines_is_line_annotated self (call_lineno n - 1) = Inr False"
      and "call_keywords n = Some ks"
      and "\<forall>k \<in> set ks. keyword_arg k \<noteq> Some (py ''flag_name'')"
  shows "check_waffle_class_annotated self n =
           (None, self_add_message self TOGGLE_NOT_ANNOTATED_MESSAGE_ID
                    [Str (if 2 \<le> length (call_args n) then node_as_string (call_args n ! 1)
                          else py ''UNKNOWN'')] (Call n))"
  using assms flag_name_loop_absent [OF assms(6)]
  by (simp add: check_waffle_class_annotated_def)

lemma WaffleFlag_is_waffle_class:
  "re_match CHECK_CAPITAL_REGEX (py ''WaffleFlag'')"
  "endswith_any (py ''WaffleFlag'') WAFFLE_TOGGLE_CLASSES"
  by (simp_all add: CHECK_CAPITAL_REGEX_def WAFFLE_TOGGLE_CLASSES_def endswith_any_def
      endswith_def py_def in_set_def)

text \<open>
  C1. For a call of a waffle class (a simple name that starts with a capital letter
  and ends with \<open>WaffleFlag\<close>, \<open>WaffleSwitch\<close> or \<open>CourseWaffleFlag\<close>) the claim wants no
  message when the line before the call is annotated, and otherwise exactly one
  \<open>feature-toggle-needs-doc\<close> message whose argument is the value of the keyword
  \<open>flag_name\<close> if there is one, else the rendering of the second positional argument,
  else \<open>UNKNOWN\<close>. The two lemmas above show the code doing so when the line is
  annotated and when no keyword is named \<open>flag_name\<close>. With such a keyword it does not:
  for \<open>WaffleFlag(NAMESPACE, flag_name=FLAG_NAME)\<close> on an unannotated line, where the
  keyword's value is a name and not a constant, reading \<open>node_key.value.value\<close> raises
  \<open>AttributeError\<close> and no message is added; and for
  \<open>WaffleFlag(NAMESPACE, 'my_flag', flag_name='UNKNOWN')\<close> the value of the keyword
  equals the sentinel, so that the message carries the rendering of the second
  positional argument instead of the keyword's value.
\<close>

theorem flag_name_keyword_defects:
  "check_waffle_class_annotated
     \<lparr>self_lines = Some \<lparr>list_of_string_lines =
        [py ''MY_FLAG = WaffleFlag(NAMESPACE, flag_name=FLAG_NAME)'']\<rparr>, messages = []\<rparr>
     \<lparr>call_func = \<lparr>node_lineno = 1, node_as_string = py ''WaffleFlag'',
                    node_name = Some (py ''WaffleFlag''), node_value = None\<rparr>,
      call_args = [\<lparr>node_lineno = 1, node_as_string = py ''NAMESPACE'',
                    node_name = Some (py ''NAMESPACE''), node_value = None\<rparr>],
      call_keywords = Some
        [\<lparr>keyword_arg = Some (py ''flag_name''),
          keyword_value = \<lparr>node_lineno = 1, node_as_string = py ''FLAG_NAME'',
                            node_name = Some (py ''FLAG_NAME''), node_value = None\<rparr>\<rparr>],
      call_lineno = 1\<rparr> =
   (Some AttributeError,
    \<lparr>self_lines = Some \<lparr>list_of_string_lines =
        [py ''MY_FLAG = WaffleFlag(NAMESPACE, flag_name=FLAG_NAME)'']\<rparr>, messages = []\<rparr>) \<and>
   map msg_args (messages (snd (check_waffle_class_annotated
     \<lparr>self_lines = Some \<lparr>list_of_string_lines =
        [py ''MY_FLAG = WaffleFlag(NAMESPACE, \039my_flag\039, flag_name=\039UNKNOWN\039)'']\<rparr>,
      messages = []\<rparr>
     \<lparr>call_func = \<lparr>node_lineno = 1, node_as_string = py ''WaffleFlag'',
                    node_name = Some (py ''WaffleFlag''), node_value = None\<rparr>,
      call_args = [\<lparr>node_lineno = 1, node_as_string = py ''NAMESPACE'',
                    node_name = Some (py ''NAMESPACE''), node_value = None\<rparr>,
                   \<lparr>node_lineno = 1, node_as_string = 39 # py ''my_flag'' @ [39],
                    node_name = None, node_value = Some (Str (py ''my_flag''))\<rparr>],
      call_keywords = Some
        [\<lparr>keyword_arg = Some (py ''flag_name''),
          keyword_value = \<lparr>node_lineno = 1, node_as_string = 39 # py ''UNKNOWN'' @ [39],
                            node_name = None, node_value = Some (Str (py ''UNKNOWN''))\<rparr>\<rparr>],
      call_lineno = 1\<rparr>))) = [[Str (39 # py ''my_flag'' @ [39])]]"
proof -
  have l0: "\<And>ls. is_line_annotated ls 0 = Inr False"
    by (simp add: is_line_annotated_def)
  show ?thesis
    using WaffleFlag_is_waffle_class l0
    by (simp add: check_waffle_class_annotated_def lines_is_line_annotated_def
        self_add_message_def add_message_def)
qed

text \<open>
  C2. A call whose callee is the simple name \<open>flag_is_active\<close> or \<open>switch_is_active\<close>
  adds exactly one \<open>illegal-waffle-usage\<close> message, whatever the state of the checker
  and so whatever the lines around the call hold. Its argument is the rendering of the
  first positional argument, or \<open>UNKNOWN\<close> when the call has none. This holds of the
  check alone and of \<open>visit_call\<close>, where the waffle-class check runs first and
  declines these names.
\<close>

theorem illegal_waffle_usage_always_reported:
  assumes "node_name (call_func n) = Some f"
      and "f = py ''flag_is_active'' \<or> f = py ''switch_is_active''"
  shows "check_illegal_waffle_usage self n =
           (None, self\<lparr>messages := messages self @
              [\<lparr>msg_id = ILLEGAL_WAFFLE_MESSAGE_ID,
                msg_args = [Str (case call_args n of [] \<Rightarrow> py ''UNKNOWN''
                                 | a # rest \<Rightarrow> node_as_string a)],
                msg_node = Call n\<rparr>]\<rparr>) \<and>
         visit_call self n = check_illegal_waffle_usage self n"
proof
  from assms(2) have mem: "f \<in> set ILLEGAL_WAFFLE_FUNCTIONS"
    by (auto simp: ILLEGAL_WAFFLE_FUNCTIONS_def)
  show "check_illegal_waffle_usage self n =
           (None, self\<lparr>messages := messages self @
              [\<lparr>msg_id = ILLEGAL_WAFFLE_MESSAGE_ID,
                msg_args = [Str (case call_args n of [] \<Rightarrow> py ''UNKNOWN''
                                 | a # rest \<Rightarrow> node_as_string a)],
                msg_node = Call n\<rparr>]\<rparr>)"
    using assms(1) mem
    by (cases "call_args n")
      (simp_all add: check_illegal_waffle_usage_def self_add_message_def add_message_def)
  from assms(2) have "\<not> re_match CHECK_CAPITAL_REGEX f"
    using lowercase_not_capital by blast
  with assms(1) have "check_waffle_class_annotated self n = (None, self)"
    by (simp add: check_waffle_class_annotated_def)
  then show "visit_call self n = check_illegal_waffle_usage self n"
    by (simp add: visit_call_def)
qed

theorem illegal_waffle_usage_always_reported_witness:
  "visit_call
     \<lparr>self_lines = Some \<lparr>list_of_string_lines =
        [py ''# .. toggle_name: some_flag'', py ''flag_is_active(some_flag)'']\<rparr>,
      messages = []\<rparr>
     \<lparr>call_func = \<lparr>node_lineno = 2, node_as_string = py ''flag_is_active'',
                    node_name = Some (py ''flag_is_active''), node_value = None\<rparr>,
      call_args = [\<lparr>node_lineno = 2, node_as_string = py ''some_flag'',
                    node_name = Some (py ''some_flag''), node_value = None\<rparr>],
      call_keywords = Some [], call_lineno = 2\<rparr> =
   (None,
    \<lparr>self_lines = Some \<lparr>list_of_string_lines =
        [py ''# .. toggle_name: some_flag'', py ''flag_is_active(some_flag)'']\<rparr>,
     messages =
       [\<lparr>msg_id = ILLEGAL_WAFFLE_MESSAGE_ID, msg_args = [Str (py ''some_flag'')],
         msg_node = Call
           \<lparr>call_func = \<lparr>node_lineno = 2, node_as_string = py ''flag_is_active'',
                          node_name = Some (py ''flag_is_active''), node_value = None\<rparr>,
            call_args = [\<lparr>node_lineno = 2, node_as_string = py ''some_flag'',
                          node_name = Some (py ''some_flag''), node_value = None\<rparr>],
            call_keywords = Some [], call_lineno = 2\<rparr>\<rparr>]\<rparr>)"
  using illegal_waffle_usage_always_reported
    [of "\<lparr>call_func = \<lparr>node_lineno = 2, node_as_string = py ''flag_is_active'',
                    node_name = Some (py ''flag_is_active''), node_value = None\<rparr>,
      call_args = [\<lparr>node_lineno = 2, node_as_string = py ''some_flag'',
                    node_name = Some (py ''some_flag''), node_value = None\<rparr>],
      call_keywords = Some [], call_lineno = 2\<rparr>" "py ''flag_is_active''"
     "\<lparr>self_lines = Some \<lparr>list_of_string_lines =
        [py ''# .. toggle_name: some_flag'', py ''flag_is_active(some_flag)'']\<rparr>,
      messages = []\<rparr>"]
  by simp

lemma features_loop_messages:
  assumes "self_lines self = Some ls"
      and "\<forall>(key, v) \<in> set items.
             is_line_annotated ls (node_lineno key - 1) \<noteq> Inr True \<longrightarrow> node_value key \<noteq> None"
  shows "features_loop n items self =
           (None, self\<lparr>messages := messages self @
              map (\<lambda>(key, v). \<lparr>msg_id = TOGGLE_NOT_ANNOTATED_MESSAGE_ID,
                                msg_args = [the (node_value key)], msg_node = Dict n\<rparr>)
                (filter (\<lambda>(key, v). is_line_annotated ls (node_lineno key - 1) \<noteq> Inr True)
                   items)\<rparr>)"
  using assms
proof (induction items arbitrary: self)
  case Nil
  then show ?case by simp
next
  case (Cons kv items)
  obtain key v where kv: "kv = (key, v)" by (cases kv)
  show ?case
  proof (cases "is_line_annotated ls (node_lineno key - 1) = Inr True")
    case True
    with Cons kv show ?thesis
      by (simp add: lines_is_line_annotated_def)
  next
    case False
    with is_line_annotated_total [of ls "node_lineno key - 1"]
    have no: "is_line_annotated ls (node_lineno key - 1) = Inr False" by simp
    from False Cons.prems(2) kv obtain x where x: "node_value key = Some x" by auto
    let ?self' = "self_add_message self TOGGLE_NOT_ANNOTATED_MESSAGE_ID [x] (Dict n)"
    have lines': "self_lines ?self' = Some ls"
      using Cons.prems(1) by (simp add: self_add_message_def)
    from Cons.prems(2) have rest: "\<forall>(key, v) \<in> set items.
        is_line_annotated ls (node_lineno key - 1) \<noteq> Inr True \<longrightarrow> node_value key \<noteq> None"
      by simp
    have "features_loop n (kv # items) self = features_loop n items ?self'"
      using kv no x Cons.prems(1) by (simp add: lines_is_line_annotated_def)
    also note Cons.IH [OF lines' rest]
    finally show ?thesis
      using kv no x by (simp add: self_add_message_def add_message_def)
  qed
qed

text \<open>
  When every key whose value is read is a constant, a dictionary literal assigned to
  the simple name \<open>FEATURES\<close> gets one \<open>feature-toggle-needs-doc\<close> message for each entry
  whose line before the key's own line is not annotated, in the order of the entries,
  with the key's literal value as argument and the dictionary node, not the key, as
  the node of the message.
\<close>

lemma features_entries_reported:
  assumes "parent_target_name n = Inr (py ''FEATURES'')"
      and "self_lines self = Some ls"
      and "\<forall>(key, v) \<in> set (dict_items n).
             is_line_annotated ls (node_lineno key - 1) \<noteq> Inr True \<longrightarrow> node_value key \<noteq> None"
  shows "check_django_feature_flag_annotated self n =
           (None, self\<lparr>messages := messages self @
              map (\<lambda>(key, v). \<lparr>msg_id = TOGGLE_NOT_ANNOTATED_MESSAGE_ID,
                                msg_args = [the (node_value key)], msg_node = Dict n\<rparr>)
                (filter (\<lambda>(key, v). is_line_annotated ls (node_lineno key - 1) \<noteq> Inr True)
                   (dict_items n))\<rparr>)"
  using assms(1) features_loop_messages [OF assms(2) assms(3)]
  by (simp add: check_django_feature_flag_annotated_def)

text \<open>
  C5. The claim wants, for a dictionary literal assigned to the simple name \<open>FEATURES\<close>,
  the line before each key's own line probed and, for each entry whose probed line is
  not annotated, exactly one \<open>feature-toggle-needs-doc\<close> message with the key's literal
  value, on the dictionary node. The code does so until it meets a key that is not a
  constant on an unannotated line: \<open>key.value\<close> then raises \<open>AttributeError\<close>, which
  this loop does not catch, although the same function catches it when it reads the
  parent's target. In \<open>FEATURES = {'A': True, **BASE, 'C': 1}\<close> the entry \<open>'A'\<close> is
  reported, the unpacking \<open>**BASE\<close>, whose key has no \<open>value\<close>, raises, and the literal
  key \<open>'C'\<close>, on an unannotated line as well, is never reported.
\<close>

theorem features_unpacked_key_raises:
  "check_django_feature_flag_annotated
     \<lparr>self_lines = Some \<lparr>list_of_string_lines =
        [py ''FEATURES = {\039A\039: True, **BASE, \039C\039: 1}'']\<rparr>,
      messages = []\<rparr>
     \<lparr>dict_parent_targets = Some [\<lparr>node_lineno = 1, node_as_string = py ''FEATURES'',
                                     node_name = Some (py ''FEATURES''), node_value = None\<rparr>],
      dict_items =
        [(\<lparr>node_lineno = 1, node_as_string = 39 # py ''A'' @ [39], node_name = None,
           node_value = Some (Str (py ''A''))\<rparr>,
          \<lparr>node_lineno = 1, node_as_string = py ''True'', node_name = None,
           node_value = Some (BoolVal True)\<rparr>),
         (\<lparr>node_lineno = 1, node_as_string = py ''**'', node_name = None,
           node_value = None\<rparr>,
          \<lparr>node_lineno = 1, node_as_string = py ''BASE'', node_name = Some (py ''BASE''),
           node_value = None\<rparr>),
         (\<lparr>node_lineno = 1, node_as_string = 39 # py ''C'' @ [39], node_name = None,
           node_value = Some (Str (py ''C''))\<rparr>,
          \<lparr>node_lineno = 1, node_as_string = py ''1'', node_name = None,
           node_value = Some (IntVal 1)\<rparr>)],
      dict_lineno = 1\<rparr> =
   (Some AttributeError,
    \<lparr>self_lines = Some \<lparr>list_of_string_lines =
        [py ''FEATURES = {\039A\039: True, **BASE, \039C\039: 1}'']\<rparr>,
     messages =
       [\<lparr>msg_id = TOGGLE_NOT_ANNOTATED_MESSAGE_ID, msg_args = [Str (py ''A'')],
         msg_node = Dict
           \<lparr>dict_parent_targets = Some [\<lparr>node_lineno = 1, node_as_string = py ''FEATURES'',
                                     node_name = Some (py ''FEATURES''), node_value = None\<rparr>],
            dict_items =
              [(\<lparr>node_lineno = 1, node_as_string = 39 # py ''A'' @ [39], node_name = None,
                 node_value = Some (Str (py ''A''))\<rparr>,
                \<lparr>node_lineno = 1, node_as_string = py ''True'', node_name = None,
                 node_value = Some (BoolVal True)\<rparr>),
               (\<lparr>node_lineno = 1, node_as_string = py ''**'', node_name = None,
                 node_value = None\<rparr>,
                \<lparr>node_lineno = 1, node_as_string = py ''BASE'', node_name = Some (py ''BASE''),
                 node_value = None\<rparr>),
               (\<lparr>node_lineno = 1, node_as_string = 39 # py ''C'' @ [39], node_name = None,
                 node_value = Some (Str (py ''C''))\<rparr>,
                \<lparr>node_lineno = 1, node_as_string = py ''1'', node_name = None,
                 node_value = Some (IntVal 1)\<rparr>)],
            dict_lineno = 1\<rparr>\<rparr>]\<rparr>)"
proof -
  have l0: "\<And>ls. is_line_annotated ls 0 = Inr False"
    by (simp add: is_line_annotated_def)
  show ?thesis
    using l0
    by (simp add: check_django_feature_flag_annotated_def parent_target_name_def getitem_def
        lines_is_line_annotated_def self_add_message_def add_message_def)
qed

section \<open>FeatureToggleAnnotationChecker: the content rules\<close>

text \<open>
  C10. For an empty annotation group the check adds no message at all, although the
  name, the description and the default are all missing.
\<close>

theorem empty_group_no_messages:
  "check_feature_toggles_annotation_group [] n sink = sink"
  by (simp add: check_feature_toggles_annotation_group_def)

text \<open>
  The loop over a group in closed form: the name, the description, the removal date
  and the default are those of the last annotation with the token; the use case is
  temporary as soon as \<open>temporary\<close> is \<open>in\<close> the data of one \<open>toggle_use_cases\<close>
  annotation.
\<close>

lemma last_occurrence_snoc:
  "last_occurrence tok (xs @ [a]) =
     (case a of
        Annotation t d \<Rightarrow> if t = tok then Some d else last_occurrence tok xs
      | Use_cases tags \<Rightarrow> last_occurrence tok xs)"
  by (induction xs) (auto split: option.splits annotation.splits)

lemma last_use_cases_snoc:
  "last_use_cases (xs @ [a]) =
     (if annotation_token a = py ''.. toggle_use_cases:'' then Some a else last_use_cases xs)"
  by (induction xs) (auto split: option.splits)

lemma group_loop_snoc: "group_loop (xs @ [a]) = group_step (group_loop xs) a"
  by (simp add: group_loop_def)

lemma some_use_case_temporary_snoc:
  "some_use_case_temporary (xs @ [a]) \<longleftrightarrow>
     some_use_case_temporary xs \<or>
     annotation_token a = py ''.. toggle_use_cases:'' \<and> in_data (py ''temporary'') a"
  by (simp add: some_use_case_temporary_def)

lemma tokens_distinct:
  "py ''.. toggle_name:'' \<noteq> py ''.. toggle_description:''"
  "py ''.. toggle_name:'' \<noteq> py ''.. toggle_use_cases:''"
  "py ''.. toggle_name:'' \<noteq> py ''.. toggle_target_removal_date:''"
  "py ''.. toggle_name:'' \<noteq> py ''.. toggle_default:''"
  "py ''.. toggle_description:'' \<noteq> py ''.. toggle_use_cases:''"
  "py ''.. toggle_description:'' \<noteq> py ''.. toggle_target_removal_date:''"
  "py ''.. toggle_description:'' \<noteq> py ''.. toggle_default:''"
  "py ''.. toggle_use_cases:'' \<noteq> py ''.. toggle_target_removal_date:''"
  "py ''.. toggle_use_cases:'' \<noteq> py ''.. toggle_default:''"
  "py ''.. toggle_target_removal_date:'' \<noteq> py ''.. toggle_default:''"
  by (simp_all add: py_def)

lemma group_loop_closed:
  "group_loop xs = (last_write_wins xs)\<lparr>temporary_use_case := some_use_case_temporary xs\<rparr>"
proof (induction xs rule: rev_induct)
  case Nil
  show ?case
    by (simp add: group_loop_def initial_vars_def last_write_wins_def group_toggle_name_def
        some_use_case_temporary_def)
next
  case (snoc a xs)
  note d = tokens_distinct tokens_distinct [symmetric]
  show ?case
    unfolding group_loop_snoc snoc.IH
    by (cases a; cases "last_use_cases xs")
       (auto simp: last_write_wins_def group_toggle_name_def
        last_occurrence_snoc last_use_cases_snoc some_use_case_temporary_snoc d)
qed

lemma message_ids_distinct:
  "INCORRECT_NAME_MESSAGE_ID \<noteq> EMPTY_DESCRIPTION_MESSAGE_ID"
  "INCORRECT_NAME_MESSAGE_ID \<noteq> MISSING_TARGET_REMOVAL_DATE_MESSAGE_ID"
  "INCORRECT_NAME_MESSAGE_ID \<noteq> NON_BOOLEAN_DEFAULT_VALUE"
  "EMPTY_DESCRIPTION_MESSAGE_ID \<noteq> MISSING_TARGET_REMOVAL_DATE_MESSAGE_ID"
  "EMPTY_DESCRIPTION_MESSAGE_ID \<noteq> NON_BOOLEAN_DEFAULT_VALUE"
  "MISSING_TARGET_REMOVAL_DATE_MESSAGE_ID \<noteq> NON_BOOLEAN_DEFAULT_VALUE"
  by (simp_all add: INCORRECT_NAME_MESSAGE_ID_def EMPTY_DESCRIPTION_MESSAGE_ID_def
      MISSING_TARGET_REMOVAL_DATE_MESSAGE_ID_def NON_BOOLEAN_DEFAULT_VALUE_def py_def)

lemma group_messages_list:
  "group_messages v n sink = sink @
     (if toggle_name v = []
      then [\<lparr>msg_id = INCORRECT_NAME_MESSAGE_ID, msg_args = [], msg_node = n\<rparr>] else []) @
     (if toggle_description v = []
      then [\<lparr>msg_id = EMPTY_DESCRIPTION_MESSAGE_ID, msg_args = [Str (toggle_name v)],
             msg_node = n\<rparr>] else []) @
     (if temporary_use_case v \<and> (target_removal_date v = None \<or> target_removal_date v = Some [])
      then [\<lparr>msg_id = MISSING_TARGET_REMOVAL_DATE_MESSAGE_ID, msg_args = [Str (toggle_name v)],
             msg_node = n\<rparr>] else []) @
     (if toggle_default v \<noteq> Some (py ''True'') \<and> toggle_default v \<noteq> Some (py ''False'')
      then [\<lparr>msg_id = NON_BOOLEAN_DEFAULT_VALUE, msg_args = [Str (toggle_name v)],
             msg_node = n\<rparr>] else [])"
  by (auto simp: group_messages_def add_message_def Let_def)

lemma emitted_append: "emitted sink (sink @ ms) = ms"
  by (simp add: emitted_def)

lemma some_use_case_temporary_nonempty: "some_use_case_temporary annotations \<Longrightarrow> annotations \<noteq> []"
  by (auto simp: some_use_case_temporary_def)

lemmas eval_group =
  check_feature_toggles_annotation_group_def group_loop_def initial_vars_def
  group_messages_def add_message_def last_write_wins_def group_toggle_name_def

lemma strip_example: "strip (py ''Enables X'') \<noteq> []"
  by (simp add: strip_def py_def is_space_def)

lemma not_temporary_example: "\<not> contains (py ''temporary'') (py ''open_edx'')"
  by (simp add: py_def startswith_def)

lemma temporary_alone: "contains (py ''temporary'') (py ''temporary'')"
  by (simp add: py_def startswith_def)

text \<open>
  C6. For a non-empty annotation group, a \<open>toggle-non-boolean-default-value\<close> message
  is added, once and with the toggle name as argument, if and only if the group's
  \<open>toggle_default\<close> is not exactly \<open>True\<close> or \<open>False\<close>; a group without
  \<open>toggle_default\<close> gets the message, and so does the value \<open>true\<close>, while \<open>True\<close>
  does not.
\<close>

theorem non_boolean_default_reported_iff:
  "annotations \<noteq> [] \<Longrightarrow>
   with_id NON_BOOLEAN_DEFAULT_VALUE
     (emitted sink (check_feature_toggles_annotation_group annotations n sink)) =
   (if last_occurrence (py ''.. toggle_default:'') annotations = Some (py ''True'') \<or>
       last_occurrence (py ''.. toggle_default:'') annotations = Some (py ''False'')
    then []
    else [\<lparr>msg_id = NON_BOOLEAN_DEFAULT_VALUE,
           msg_args = [Str (group_toggle_name annotations)], msg_node = n\<rparr>])"
  using message_ids_distinct
  by (simp add: check_feature_toggles_annotation_group_def group_loop_closed
      group_messages_list emitted_append with_id_def last_write_wins_def)

theorem non_boolean_default_reported_iff_witness:
  "with_id NON_BOOLEAN_DEFAULT_VALUE
     (emitted []
        (check_feature_toggles_annotation_group
           [Annotation (py ''.. toggle_name:'') (py ''X''),
            Annotation (py ''.. toggle_default:'') (py ''true'')]
           (Module \<lparr>module_as_string = []\<rparr>) [])) =
     [\<lparr>msg_id = NON_BOOLEAN_DEFAULT_VALUE, msg_args = [Str (py ''X'')],
       msg_node = Module \<lparr>module_as_string = []\<rparr>\<rparr>] \<and>
   with_id NON_BOOLEAN_DEFAULT_VALUE
     (emitted []
        (check_feature_toggles_annotation_group
           [Annotation (py ''.. toggle_name:'') (py ''X''),
            Annotation (py ''.. toggle_default:'') (py ''True'')]
           (Module \<lparr>module_as_string = []\<rparr>) [])) = [] \<and>
   with_id NON_BOOLEAN_DEFAULT_VALUE
     (emitted []
        (check_feature_toggles_annotation_group
           [Annotation (py ''.. toggle_name:'') (py ''X'')]
           (Module \<lparr>module_as_string = []\<rparr>) [])) =
     [\<lparr>msg_id = NON_BOOLEAN_DEFAULT_VALUE, msg_args = [Str (py ''X'')],
       msg_node = Module \<lparr>module_as_string = []\<rparr>\<rparr>]"
proof -
  let ?name = "Annotation (py ''.. toggle_name:'') (py ''X'')"
  let ?m = "Module \<lparr>module_as_string = []\<rparr>"
  note d = tokens_distinct tokens_distinct [symmetric]
  have t: "py ''true'' \<noteq> py ''True''" "py ''true'' \<noteq> py ''False''"
    "py ''True'' \<noteq> py ''False''"
    by (simp_all add: py_def)
  have a: "[?name, Annotation (py ''.. toggle_default:'') (py ''true'')] \<noteq> []"
    by simp
  have b: "[?name, Annotation (py ''.. toggle_default:'') (py ''True'')] \<noteq> []"
    by simp
  have c: "[?name] \<noteq> []" by simp
  show ?thesis
    using non_boolean_default_reported_iff [OF a, of "[]" ?m]
      non_boolean_default_reported_iff [OF b, of "[]" ?m]
      non_boolean_default_reported_iff [OF c, of "[]" ?m] d t
    by (simp add: group_toggle_name_def)
qed

text \<open>
  C7, as amended. For an annotation group in which \<open>temporary\<close> is \<open>in\<close> the data of a
  \<open>toggle_use_cases\<close> annotation (one of the tags of the list that the search hands
  over, or a substring when the data is a string) and which has no
  \<open>toggle_target_removal_date\<close>, a \<open>toggle-missing-target-removal-date\<close> message is
  added, once and with the toggle name as argument. When moreover the name is present
  and not empty, the description is present and not blank and the default is \<open>True\<close>
  or \<open>False\<close>, this message is the only one; such is the group with the use cases
  \<open>temporary\<close> and \<open>release\<close> of the witness.
\<close>

theorem temporary_without_removal_date_reported:
  assumes "some_use_case_temporary annotations"
      and "last_occurrence (py ''.. toggle_target_removal_date:'') annotations = None"
  shows "with_id MISSING_TARGET_REMOVAL_DATE_MESSAGE_ID
           (emitted sink (check_feature_toggles_annotation_group annotations n sink)) =
         [\<lparr>msg_id = MISSING_TARGET_REMOVAL_DATE_MESSAGE_ID,
           msg_args = [Str (group_toggle_name annotations)], msg_node = n\<rparr>] \<and>
         (group_toggle_name annotations \<noteq> [] \<and>
          (case last_occurrence (py ''.. toggle_description:'') annotations of
             None \<Rightarrow> False | Some d \<Rightarrow> strip d \<noteq> []) \<and>
          (last_occurrence (py ''.. toggle_default:'') annotations = Some (py ''True'') \<or>
           last_occurrence (py ''.. toggle_default:'') annotations = Some (py ''False'')) \<longrightarrow>
          emitted sink (check_feature_toggles_annotation_group annotations n sink) =
          [\<lparr>msg_id = MISSING_TARGET_REMOVAL_DATE_MESSAGE_ID,
            msg_args = [Str (group_toggle_name annotations)], msg_node = n\<rparr>])"
proof -
  note d = message_ids_distinct message_ids_distinct [symmetric]
  from assms(1) have ne: "annotations \<noteq> []" by (rule some_use_case_temporary_nonempty)
  show ?thesis
    using ne assms d
    by (auto simp: check_feature_toggles_annotation_group_def group_loop_closed
        group_messages_list emitted_append with_id_def last_write_wins_def
        split: option.splits)
qed

theorem temporary_without_removal_date_reported_witness:
  "emitted []
     (check_feature_toggles_annotation_group
        [Annotation (py ''.. toggle_name:'') (py ''X''),
         Annotation (py ''.. toggle_description:'') (py ''Enables X''),
         Use_cases [py ''temporary'', py ''release''],
         Annotation (py ''.. toggle_default:'') (py ''True'')]
        (Module \<lparr>module_as_string = []\<rparr>) []) =
   [\<lparr>msg_id = MISSING_TARGET_REMOVAL_DATE_MESSAGE_ID, msg_args = [Str (py ''X'')],
     msg_node = Module \<lparr>module_as_string = []\<rparr>\<rparr>]"
proof -
  let ?g = "[Annotation (py ''.. toggle_name:'') (py ''X''),
         Annotation (py ''.. toggle_description:'') (py ''Enables X''),
         Use_cases [py ''temporary'', py ''release''],
         Annotation (py ''.. toggle_default:'') (py ''True'')]"
  note d = tokens_distinct tokens_distinct [symmetric]
  have h1: "some_use_case_temporary ?g"
    by (simp add: some_use_case_temporary_def)
  have h2: "last_occurrence (py ''.. toggle_target_removal_date:'') ?g = None"
    using d by simp
  have x: "py ''X'' \<noteq> []" by (simp add: py_def)
  have n: "group_toggle_name ?g = py ''X''"
    using d by (simp add: group_toggle_name_def)
  have de: "last_occurrence (py ''.. toggle_description:'') ?g = Some (py ''Enables X'')"
    using d by simp
  have df: "last_occurrence (py ''.. toggle_default:'') ?g = Some (py ''True'')"
    using d by simp
  show ?thesis
    using temporary_without_removal_date_reported [OF h1 h2, of "[]" "Module \<lparr>module_as_string = []\<rparr>"]
      n de df x strip_example
    by simp
qed

lemma temporaryish_example:
  "contains (py ''temporary'') (py ''temporaryish'')"
  "py ''temporary'' \<noteq> py ''temporaryish''"
  by (simp_all add: py_def startswith_def)

text \<open>
  C7, as stated, fails: on the list of tags, a tag that contains \<open>temporary\<close> without
  being it, such as \<open>temporaryish\<close>, is not \<open>temporary\<close>. The group has no removal date
  and the check adds no message.
\<close>

theorem substring_of_tag_counterexample:
  "use_cases_contains (py ''temporary'') (Use_cases [py ''temporaryish'']) \<and>
   last_occurrence (py ''.. toggle_target_removal_date:'')
     [Annotation (py ''.. toggle_name:'') (py ''X''),
      Annotation (py ''.. toggle_description:'') (py ''Enables X''),
      Use_cases [py ''temporaryish''],
      Annotation (py ''.. toggle_default:'') (py ''True'')] = None \<and>
   check_feature_toggles_annotation_group
     [Annotation (py ''.. toggle_name:'') (py ''X''),
      Annotation (py ''.. toggle_description:'') (py ''Enables X''),
      Use_cases [py ''temporaryish''],
      Annotation (py ''.. toggle_default:'') (py ''True'')]
     (Module \<lparr>module_as_string = []\<rparr>) [] = []"
proof -
  note d = tokens_distinct tokens_distinct [symmetric]
  have x: "py ''X'' \<noteq> []" by (simp add: py_def)
  show ?thesis
    using d x strip_example temporaryish_example
    by (simp add: eval_group)
qed

text \<open>
  C8, as amended. The content rules read, for \<open>toggle_name\<close>, \<open>toggle_description\<close>,
  \<open>toggle_target_removal_date\<close> and \<open>toggle_default\<close>, the value of the last occurrence
  of the token in the group. For \<open>toggle_use_cases\<close> they do not: the use case counts as
  temporary as soon as \<open>temporary\<close> is \<open>in\<close> the data of any occurrence, also when it is
  not in the data of a later one.
\<close>

theorem content_rules_values:
  "check_feature_toggles_annotation_group annotations n sink =
     (if annotations = [] then sink
      else group_messages
             ((last_write_wins annotations)
                \<lparr>temporary_use_case := some_use_case_temporary annotations\<rparr>) n sink)"
  by (simp add: check_feature_toggles_annotation_group_def group_loop_closed)

lemma tags_differ: "py ''temporary'' \<noteq> py ''open_edx''"
  by (simp add: py_def)

text \<open>
  C8, as stated, fails: in a group with \<open>toggle_use_cases\<close> first \<open>temporary\<close> and then
  \<open>open_edx\<close>, and no removal date, the check adds the message for the missing
  removal date, which the last value, \<open>open_edx\<close>, would not bring; and so it is
  whether the two values are strings or lists of tags.
\<close>

theorem last_write_wins_counterexample:
  "check_feature_toggles_annotation_group
     [Annotation (py ''.. toggle_name:'') (py ''X''),
      Annotation (py ''.. toggle_description:'') (py ''Enables X''),
      Annotation (py ''.. toggle_use_cases:'') (py ''temporary''),
      Annotation (py ''.. toggle_use_cases:'') (py ''open_edx''),
      Annotation (py ''.. toggle_default:'') (py ''True'')]
     (Module \<lparr>module_as_string = []\<rparr>) [] \<noteq>
   group_messages
     (last_write_wins
        [Annotation (py ''.. toggle_name:'') (py ''X''),
         Annotation (py ''.. toggle_description:'') (py ''Enables X''),
         Annotation (py ''.. toggle_use_cases:'') (py ''temporary''),
         Annotation (py ''.. toggle_use_cases:'') (py ''open_edx''),
         Annotation (py ''.. toggle_default:'') (py ''True'')])
     (Module \<lparr>module_as_string = []\<rparr>) [] \<and>
   check_feature_toggles_annotation_group
     [Annotation (py ''.. toggle_name:'') (py ''X''),
      Annotation (py ''.. toggle_description:'') (py ''Enables X''),
      Annotation (py ''.. toggle_use_cases:'') (py ''temporary''),
      Annotation (py ''.. toggle_use_cases:'') (py ''open_edx''),
      Annotation (py ''.. toggle_default:'') (py ''True'')]
     (Module \<lparr>module_as_string = []\<rparr>) [] =
   [\<lparr>msg_id = MISSING_TARGET_REMOVAL_DATE_MESSAGE_ID, msg_args = [Str (py ''X'')],
     msg_node = Module \<lparr>module_as_string = []\<rparr>\<rparr>] \<and>
   group_messages
     (last_write_wins
        [Annotation (py ''.. toggle_name:'') (py ''X''),
         Annotation (py ''.. toggle_description:'') (py ''Enables X''),
         Annotation (py ''.. toggle_use_cases:'') (py ''temporary''),
         Annotation (py ''.. toggle_use_cases:'') (py ''open_edx''),
         Annotation (py ''.. toggle_default:'') (py ''True'')])
     (Module \<lparr>module_as_string = []\<rparr>) [] = [] \<and>
   check_feature_toggles_annotation_group
     [Annotation (py ''.. toggle_name:'') (py ''X''),
      Annotation (py ''.. toggle_description:'') (py ''Enables X''),
      Use_cases [py ''temporary''],
      Use_cases [py ''open_edx''],
      Annotation (py ''.. toggle_default:'') (py ''True'')]
     (Module \<lparr>module_as_string = []\<rparr>) [] \<noteq>
   group_messages
     (last_write_wins
        [Annotation (py ''.. toggle_name:'') (py ''X''),
         Annotation (py ''.. toggle_description:'') (py ''Enables X''),
         Use_cases [py ''temporary''],
         Use_cases [py ''open_edx''],
         Annotation (py ''.. toggle_default:'') (py ''True'')])
     (Module \<lparr>module_as_string = []\<rparr>) []"
proof -
  note d = tokens_distinct tokens_distinct [symmetric]
  have x: "py ''X'' \<noteq> []" by (simp add: py_def)
  show ?thesis
    using d x strip_example not_temporary_example temporary_alone tags_differ
    by (simp add: eval_group)
qed

text \<open>The message for the name depends on the name's value alone, not on its place.\<close>

lemma incorrect_name_only_when_empty:
  "with_id INCORRECT_NAME_MESSAGE_ID
     (emitted sink (check_feature_toggles_annotation_group annotations n sink)) =
   (if annotations \<noteq> [] \<and> group_toggle_name annotations = []
    then [\<lparr>msg_id = INCORRECT_NAME_MESSAGE_ID, msg_args = [], msg_node = n\<rparr>] else [])"
  using message_ids_distinct message_ids_distinct [symmetric]
  by (simp add: check_feature_toggles_annotation_group_def group_loop_closed
      group_messages_list emitted_def with_id_def last_write_wins_def)

text \<open>
  C9. The claim wants a \<open>toggle-incorrect-name\<close> message for a group whose non-empty
  \<open>toggle_name\<close> is not the first annotation, as the message's own description does
  (\<open>Feature toggle name must be present and be the first annotation\<close>). The check only
  tests that the name is not empty: a valid group with the name in last place gets no
  message at all.
\<close>

theorem name_not_first_not_reported:
  "check_feature_toggles_annotation_group
     [Annotation (py ''.. toggle_description:'') (py ''Enables X''),
      Annotation (py ''.. toggle_default:'') (py ''True''),
      Annotation (py ''.. toggle_name:'') (py ''X'')]
     (Module \<lparr>module_as_string = []\<rparr>) [] = []"
proof -
  note d = tokens_distinct tokens_distinct [symmetric]
  have x: "py ''X'' \<noteq> []" by (simp add: py_def)
  show ?thesis
    using d x strip_example by (simp add: eval_group)
qed

end
